theory Spec2Isabelle
  imports Main "HOL-Library.AList"
begin

section \<open>The users REST handler of main.go\<close>

text \<open>
  The program is one HTTP handler, \<open>userHandler\<close>, over an in-memory map of
  users guarded by a \<open>sync.RWMutex\<close>. The embedding follows main.go function by
  function. What the handler calls in Go's standard library is kept apart from the
  program: the three route patterns are regular expressions and are given as
  syntax trees with a matcher; \<open>encoding/json\<close> is a parameter of every handler
  (the record \<open>json\<close> below); the calls made on the \<open>http.ResponseWriter\<close>
  and on the store are recorded in the order in which the code makes them.
\<close>

subsection \<open>Route patterns\<close>

text \<open>
  The fragment of Go's \<open>regexp\<close> syntax that the three patterns use: literal
  bytes, the class \<open>\d\<close>, concatenation, and the postfix \<open>*\<close> and \<open>+\<close>.
  \<open>Null\<close> and \<open>Alt\<close> are needed only for the residuals the matcher builds.
  All three patterns start with \<open>^\<close> and end with \<open>$\<close>, so \<open>MatchString\<close>
  decides whether the whole path belongs to the pattern.
\<close>

datatype regexp = Null | Eps | Lit char | Digit | Cat regexp regexp
  | Alt regexp regexp | Star regexp

definition Plus :: "regexp \<Rightarrow> regexp" where
  "Plus r = Cat r (Star r)"

fun lits :: "string \<Rightarrow> regexp" where
  "lits [] = Eps"
| "lits (c # cs) = Cat (Lit c) (lits cs)"

text \<open>\<open>\d\<close> in Go's regexp is the ASCII class \<open>[0-9]\<close>.\<close>

definition digit :: "char \<Rightarrow> bool" where
  "digit c = (c \<in> set ''0123456789'')"

fun empty_ok :: "regexp \<Rightarrow> bool" where
  "empty_ok Null = False"
| "empty_ok Eps = True"
| "empty_ok (Lit a) = False"
| "empty_ok Digit = False"
| "empty_ok (Cat r s) = (empty_ok r \<and> empty_ok s)"
| "empty_ok (Alt r s) = (empty_ok r \<or> empty_ok s)"
| "empty_ok (Star r) = True"

fun residual :: "char \<Rightarrow> regexp \<Rightarrow> regexp" where
  "residual c Null = Null"
| "residual c Eps = Null"
| "residual c (Lit a) = (if a = c then Eps else Null)"
| "residual c Digit = (if digit c then Eps else Null)"
| "residual c (Cat r s) =
     (if empty_ok r then Alt (Cat (residual c r) s) (residual c s)
      else Cat (residual c r) s)"
| "residual c (Alt r s) = Alt (residual c r) (residual c s)"
| "residual c (Star r) = Cat (residual c r) (Star r)"

fun MatchString :: "regexp \<Rightarrow> string \<Rightarrow> bool" where
  "MatchString r [] = empty_ok r"
| "MatchString r (c # cs) = MatchString (residual c r) cs"

text \<open>
  \<^verbatim>\<open>listUsersRe  = regexp.MustCompile(`^\/users[\/]*$`)\<close>
  \<^verbatim>\<open>getUserRe    = regexp.MustCompile(`^\/users\/(\d+)$`)\<close>
  \<^verbatim>\<open>createUserRe = regexp.MustCompile(`^\/users[\/]*$`)\<close>
\<close>

definition listUsersRe :: regexp where
  "listUsersRe = Cat (lits ''/users'') (Star (Lit CHR ''/''))"

definition getUserRe :: regexp where
  "getUserRe = Cat (lits ''/users/'') (Plus Digit)"

definition createUserRe :: regexp where
  "createUserRe = Cat (lits ''/users'') (Star (Lit CHR ''/''))"

text \<open>
  \<open>getUserRe.FindStringSubmatch\<close>: \<open>nil\<close> when the path does not match; otherwise
  the whole match followed by the text of the one group. The group \<open>(\d+)\<close> starts
  after the seven bytes of \<open>/users/\<close> and ends at \<open>$\<close>.
\<close>

definition FindStringSubmatch :: "string \<Rightarrow> string list" where
  "FindStringSubmatch p = (if MatchString getUserRe p then [p, drop 7 p] else [])"

subsection \<open>Data\<close>

record user =
  ID :: string
  Name :: string

text \<open>
  \<open>datastore.m\<close> is a Go map. It is kept as an association list so that the
  \<open>range\<close> loop of \<open>List\<close> has something to run over; a lookup is \<open>map_of\<close>, the
  assignment \<open>m[k] = v\<close> is \<open>AList.update\<close>. Go ranges over a map in an order of
  its own choosing, so nothing below depends on the order of the list.
\<close>

type_synonym store = "(string \<times> user) list"

record request =
  Method :: string
  Path :: string
  Body :: string

definition MethodGet :: string where "MethodGet = ''GET''"
definition MethodPost :: string where "MethodPost = ''POST''"

text \<open>The calls a handler makes on its \<open>http.ResponseWriter\<close>, in order.\<close>

datatype wcall = SetHeader string string | WriteHeader nat | Write string

text \<open>
  The calls a handler makes on the lock and the accesses it makes to the map, in
  order: \<open>len(m)\<close>, the \<open>range\<close> loop, \<open>m[k]\<close> read and \<open>m[k] = v\<close>.
\<close>

datatype sync_ev = RLock | RUnlock | Lock | Unlock
  | MapLen | MapRange | MapIndex string | MapAssign string

record hstate =
  resp :: "wcall list"
  store_m :: store
  store_mu :: "sync_ev list"

text \<open>
  \<open>encoding/json\<close>, as far as the handlers use it: \<open>Decode\<close> is
  \<open>json.NewDecoder(r.Body).Decode(&u)\<close> on a zero \<open>user\<close>, \<open>Marshal\<close> is
  \<open>json.Marshal\<close> on a \<open>user\<close> or a \<open>[]user\<close>. \<open>None\<close> is a non-nil error.
\<close>

datatype jarg = JUser user | JUsers "user list"

record json =
  Decode :: "string \<Rightarrow> user option"
  Marshal :: "jarg \<Rightarrow> string option"

text \<open>A handler returns, or panics in the state it has reached.\<close>

datatype go_panic = IndexOutOfRange nat nat

datatype outcome = Return hstate | Panic go_panic hstate

fun final :: "outcome \<Rightarrow> hstate" where
  "final (Return s) = s"
| "final (Panic p s) = s"

subsection \<open>Error responses\<close>

definition badRequest :: "wcall list \<Rightarrow> wcall list" where
  \<open>badRequest w = w @ [WriteHeader 400, Write ''{"error" : "bad request"}'']\<close>

definition notFound :: "wcall list \<Rightarrow> wcall list" where
  \<open>notFound w = w @ [WriteHeader 404, Write ''{"error" : "not found"}'']\<close>

definition internalServerError :: "wcall list \<Rightarrow> wcall list" where
  \<open>internalServerError w =
     w @ [WriteHeader 500, Write ''{"error" : "interval server error"}'']\<close>

subsection \<open>Handlers\<close>

text \<open>The loop \<^verbatim>\<open>for _, u := range h.store.m { users = append(users, u) }\<close>.\<close>

fun range_append :: "store \<Rightarrow> user list \<Rightarrow> user list" where
  "range_append [] users = users"
| "range_append (kv # kvs) users = range_append kvs (users @ [snd kv])"

text \<open>
  Bookkeeping: \<open>mu\<close> appends to the events of the store, \<open>respond\<close> applies calls
  to the response writer, \<open>ok\<close> is the pair \<open>w.WriteHeader(http.StatusOK)\<close>,
  \<open>w.Write(jsonBytes)\<close> that ends each handler.
\<close>

definition mu :: "sync_ev list \<Rightarrow> hstate \<Rightarrow> hstate" where
  "mu es s = s\<lparr>store_mu := store_mu s @ es\<rparr>"

definition respond :: "(wcall list \<Rightarrow> wcall list) \<Rightarrow> hstate \<Rightarrow> hstate" where
  "respond f s = s\<lparr>resp := f (resp s)\<rparr>"

definition ok :: "string \<Rightarrow> wcall list \<Rightarrow> wcall list" where
  "ok jsonBytes w = w @ [WriteHeader 200, Write jsonBytes]"

text \<open>
  \<open>List\<close> (lines 49 to 63): the slice is made with the capacity \<open>len(h.store.m)\<close>,
  which reads the map before \<open>RLock\<close>; the loop runs between \<open>RLock\<close> and
  \<open>RUnlock\<close>; the slice is marshalled after the lock is released.
\<close>

definition List :: "json \<Rightarrow> hstate \<Rightarrow> hstate" where
  "List js s =
     (let s1 = mu [MapLen] s;
          s2 = mu [RLock] s1;
          users = range_append (store_m s2) [];
          s3 = mu [MapRange] s2;
          s4 = mu [RUnlock] s3
      in case Marshal js (JUsers users) of
           None \<Rightarrow> respond internalServerError s4
         | Some jsonBytes \<Rightarrow> respond (ok jsonBytes) s4)"

text \<open>
  \<open>Get\<close> (lines 65 to 84). The branch \<open>len(matches) < 2\<close> calls \<open>notFound\<close> and has
  no \<open>return\<close>, so control goes on to \<open>RLock\<close> and to \<open>matches[1]\<close>; on a slice
  shorter than two this index panics, after \<open>RLock\<close> and with no \<open>RUnlock\<close>.
\<close>

definition Get :: "json \<Rightarrow> hstate \<Rightarrow> request \<Rightarrow> outcome" where
  "Get js s r =
     (let matches = FindStringSubmatch (Path r);
          s1 = (if length matches < 2 then respond notFound s else s);
          s2 = mu [RLock] s1
      in if length matches \<le> 1 then Panic (IndexOutOfRange 1 (length matches)) s2
         else
           let key = matches ! 1;
               s3 = mu [MapIndex key, RUnlock] s2
           in case map_of (store_m s3) key of
                None \<Rightarrow> Return (respond notFound s3)
              | Some u \<Rightarrow>
                  (case Marshal js (JUser u) of
                     None \<Rightarrow> Return (respond internalServerError s3)
                   | Some jsonBytes \<Rightarrow> Return (respond (ok jsonBytes) s3)))"

text \<open>
  \<open>Create\<close> (lines 86 to 102): a body that does not decode is answered by
  \<open>badRequest\<close> before the map is touched; otherwise \<open>h.store.m[u.ID] = u\<close> runs
  between \<open>Lock\<close> and \<open>Unlock\<close>, and the decoded user is marshalled back.
\<close>

definition Create :: "json \<Rightarrow> hstate \<Rightarrow> request \<Rightarrow> hstate" where
  "Create js s r =
     (case Decode js (Body r) of
        None \<Rightarrow> respond badRequest s
      | Some u \<Rightarrow>
          let s1 = mu [Lock] s;
              s2 = mu [MapAssign (ID u)] (s1\<lparr>store_m := AList.update (ID u) u (store_m s1)\<rparr>);
              s3 = mu [Unlock] s2
          in case Marshal js (JUser u) of
               None \<Rightarrow> respond internalServerError s3
             | Some jsonBytes \<Rightarrow> respond (ok jsonBytes) s3)"

subsection \<open>The dispatcher\<close>

text \<open>
  The \<open>switch\<close> of \<open>ServeHTTP\<close>: \<open>route\<close> is the sequence of its case
  conditions, in the order of the source; \<open>ServeHTTP\<close> sets the header and runs
  the body of the selected case.
\<close>

datatype handler = RList | RGet | RCreate | RNotFound

definition route :: "request \<Rightarrow> handler" where
  "route r =
     (if Method r = MethodGet \<and> MatchString listUsersRe (Path r) then RList
      else if Method r = MethodGet \<and> MatchString getUserRe (Path r) then RGet
      else if Method r = MethodPost \<and> MatchString createUserRe (Path r) then RCreate
      else RNotFound)"

definition ServeHTTP :: "json \<Rightarrow> hstate \<Rightarrow> request \<Rightarrow> outcome" where
  "ServeHTTP js s r =
     (let s0 = respond (\<lambda>w. w @ [SetHeader ''content-type'' ''application/json'']) s
      in case route r of
           RList \<Rightarrow> Return (List js s0)
         | RGet \<Rightarrow> Get js s0 r
         | RCreate \<Rightarrow> Return (Create js s0 r)
         | RNotFound \<Rightarrow> Return (respond notFound s0))"

text \<open>
  One request served on a fresh response writer, and a sequence of requests served
  one after the other; the map is what lasts from one request to the next.
\<close>

definition serve :: "json \<Rightarrow> store \<Rightarrow> request \<Rightarrow> outcome" where
  "serve js st r = ServeHTTP js \<lparr>resp = [], store_m = st, store_mu = []\<rparr> r"

fun serve_all :: "json \<Rightarrow> store \<Rightarrow> request list \<Rightarrow> store" where
  "serve_all js st [] = st"
| "serve_all js st (r # rs) = serve_all js (store_m (final (serve js st r))) rs"

subsection \<open>The stores that main builds\<close>

text \<open>
  \<open>main\<close> starts the handler on a map literal; the two copies of the program
  differ only in this literal.
\<close>

definition main_store :: store where
  "main_store =
     [(''1'', \<lparr>ID = ''MCI001'', Name = ''Kevin De Bruyne''\<rparr>),
      (''2'', \<lparr>ID = ''MCI002'', Name = ''Bernardo Silva''\<rparr>),
      (''3'', \<lparr>ID = ''MCI003'', Name = ''Erling Braut Haaland''\<rparr>),
      (''4'', \<lparr>ID = ''MCI004'', Name = ''Ederson Moraes''\<rparr>),
      (''5'', \<lparr>ID = ''MCI005'', Name = ''Jack Grealish''\<rparr>),
      (''6'', \<lparr>ID = ''MCI006'', Name = ''Kyle Walker''\<rparr>),
      (''7'', \<lparr>ID = ''MCI007'', Name = ''Joao Cancelo''\<rparr>),
      (''8'', \<lparr>ID = ''MCI008'', Name = ''Ruben Dias''\<rparr>),
      (''9'', \<lparr>ID = ''MCI009'', Name = ''Aymeric Laporte''\<rparr>),
      (''10'', \<lparr>ID = ''MCI010'', Name = ''John Stones''\<rparr>),
      (''11'', \<lparr>ID = ''MCI011'', Name = ''Manuel Akanji''\<rparr>),
      (''12'', \<lparr>ID = ''MCI012'', Name = ''Ilkay Gundogan''\<rparr>),
      (''13'', \<lparr>ID = ''MCI013'', Name = ''Phil Foden''\<rparr>),
      (''14'', \<lparr>ID = ''MCI014'', Name = ''Riyad Mahrez''\<rparr>)]"

definition part_000_store :: store where
  "part_000_store =
     [(''1'', \<lparr>ID = ''1001'', Name = ''Komi Shouko''\<rparr>),
      (''2'', \<lparr>ID = ''1002'', Name = ''Manbagi Rumiko''\<rparr>),
      (''3'', \<lparr>ID = ''1003'', Name = ''Yamai Ren''\<rparr>),
      (''4'', \<lparr>ID = ''1004'', Name = ''Tadano Hitomi''\<rparr>),
      (''5'', \<lparr>ID = ''1005'', Name = ''Onemine Nene''\<rparr>),
      (''6'', \<lparr>ID = ''1006'', Name = ''Otori Kaede''\<rparr>)]"

subsection \<open>Reading a response\<close>

text \<open>
  What \<open>net/http\<close> sends for a sequence of calls: the status is that of the first
  \<open>WriteHeader\<close> (a \<open>Write\<close> that comes first implies 200), the body is what the
  \<open>Write\<close> calls wrote, in order.
\<close>

fun status_code :: "wcall list \<Rightarrow> nat option" where
  "status_code [] = None"
| "status_code (SetHeader k v # cs) = status_code cs"
| "status_code (WriteHeader n # cs) = Some n"
| "status_code (Write b # cs) = Some 200"

fun body_bytes :: "wcall list \<Rightarrow> string" where
  "body_bytes [] = []"
| "body_bytes (Write b # cs) = b @ body_bytes cs"
| "body_bytes (SetHeader k v # cs) = body_bytes cs"
| "body_bytes (WriteHeader n # cs) = body_bytes cs"

subsection \<open>Vocabulary of the properties\<close>

text \<open>A request that reaches \<open>Create\<close> with a body that decodes to a user with id \<open>k\<close>.\<close>

definition creates_key :: "json \<Rightarrow> string \<Rightarrow> request \<Rightarrow> bool" where
  "creates_key js k q = (route q = RCreate \<and> map_option ID (Decode js (Body q)) = Some k)"

text \<open>
  The lock discipline, checked along the events of one handler run: a read of the map
  needs the lock held in either mode, an assignment needs it held exclusively.
\<close>

datatype held = Unheld | Shared | Exclusive

fun guarded :: "held \<Rightarrow> sync_ev list \<Rightarrow> bool" where
  "guarded h [] = True"
| "guarded h (RLock # es) = guarded Shared es"
| "guarded h (RUnlock # es) = guarded Unheld es"
| "guarded h (Lock # es) = guarded Exclusive es"
| "guarded h (Unlock # es) = guarded Unheld es"
| "guarded h (MapLen # es) = (h \<noteq> Unheld \<and> guarded h es)"
| "guarded h (MapRange # es) = (h \<noteq> Unheld \<and> guarded h es)"
| "guarded h (MapIndex k # es) = (h \<noteq> Unheld \<and> guarded h es)"
| "guarded h (MapAssign k # es) = (h = Exclusive \<and> guarded h es)"

text \<open>The bytes of an error body whose \<open>error\<close> field is \<open>msg\<close>, as the helpers lay them out.\<close>

definition error_body :: "string \<Rightarrow> string" where
  \<open>error_body msg = ''{"error" : "'' @ msg @ ''"}''\<close>

subsection \<open>A sample of encoding/json\<close>

text \<open>
  The general theorems below hold for every \<open>json\<close>. The examples need a concrete
  one: \<open>sample_json\<close> gives the values of \<open>encoding/json\<close> on the bodies and the
  records the examples use. \<open>sample_Decode\<close> is a finite table and takes every other
  body as undecodable; \<open>sample_Marshal\<close> writes the fields without escaping, which
  is what \<open>json.Marshal\<close> does for fields made of letters, digits and spaces.
  The last row of the table is a JSON object that has neither \<open>id\<close> nor \<open>name\<close>:
  \<open>Decode\<close> skips the field it does not know, returns no error and leaves the
  \<open>user\<close> at its zero value.
\<close>

definition object :: "user \<Rightarrow> string" where
  \<open>object u = ''{"id":"'' @ ID u @ ''","name":"'' @ Name u @ ''"}''\<close>

fun objects :: "user list \<Rightarrow> string" where
  "objects [] = []"
| "objects [u] = object u"
| "objects (u # us) = object u @ '','' @ objects us"

fun sample_Marshal :: "jarg \<Rightarrow> string option" where
  "sample_Marshal (JUser u) = Some (object u)"
| "sample_Marshal (JUsers us) = Some (''['' @ objects us @ '']'')"

definition sample_Decode :: "string \<Rightarrow> user option" where
  \<open>sample_Decode = map_of
     [(''{"id":"2001","name":"X"}'', \<lparr>ID = ''2001'', Name = ''X''\<rparr>),
      (''{"id":"2001","name":"Y"}'', \<lparr>ID = ''2001'', Name = ''Y''\<rparr>),
      (''{"id":"abc","name":"X"}'', \<lparr>ID = ''abc'', Name = ''X''\<rparr>),
      (''{"id":"abc","name":"Y"}'', \<lparr>ID = ''abc'', Name = ''Y''\<rparr>),
      (''{"foo":1}'', \<lparr>ID = [], Name = []\<rparr>)]\<close>

definition sample_json :: json where
  "sample_json = \<lparr>Decode = sample_Decode, Marshal = sample_Marshal\<rparr>"

section \<open>Lemmas\<close>

subsection \<open>What the matcher accepts\<close>

lemma match_Null: "\<not> MatchString Null s"
  by (induction s) auto

lemma match_Eps: "MatchString Eps s = (s = [])"
  by (cases s) (auto simp: match_Null)

lemma match_Alt: "MatchString (Alt r1 r2) s = (MatchString r1 s \<or> MatchString r2 s)"
  by (induction s arbitrary: r1 r2) auto

lemma match_Cat:
  "MatchString (Cat r1 r2) s = (\<exists>u v. s = u @ v \<and> MatchString r1 u \<and> MatchString r2 v)"
proof (induction s arbitrary: r1 r2)
  case Nil
  then show ?case by simp
next
  case (Cons c cs)
  have split: "(\<exists>u v. c # cs = u @ v \<and> MatchString r1 u \<and> MatchString r2 v) =
     ((empty_ok r1 \<and> MatchString (residual c r2) cs) \<or>
      (\<exists>u v. cs = u @ v \<and> MatchString (residual c r1) u \<and> MatchString r2 v))"
    (is "?L = ?R")
  proof
    assume ?L
    then obtain u v where uv: "c # cs = u @ v" "MatchString r1 u" "MatchString r2 v"
      by blast
    show ?R
    proof (cases u)
      case Nil
      with uv show ?thesis by auto
    next
      case (Cons a u')
      with uv have "cs = u' @ v" "MatchString (residual c r1) u'" by auto
      with uv(3) show ?thesis by blast
    qed
  next
    assume ?R
    then show ?L
    proof
      assume "empty_ok r1 \<and> MatchString (residual c r2) cs"
      then have "c # cs = [] @ (c # cs)" "MatchString r1 []" "MatchString r2 (c # cs)"
        by auto
      then show ?L by blast
    next
      assume "\<exists>u v. cs = u @ v \<and> MatchString (residual c r1) u \<and> MatchString r2 v"
      then obtain u v where "cs = u @ v" "MatchString (residual c r1) u" "MatchString r2 v"
        by blast
      then have "c # cs = (c # u) @ v" "MatchString r1 (c # u)" "MatchString r2 v"
        by auto
      then show ?L by blast
    qed
  qed
  show ?case
    by (simp add: split match_Alt Cons.IH) blast
qed

lemma match_Lit: "MatchString (Lit a) s = (s = [a])"
  by (cases s) (auto simp: match_Null match_Eps)

lemma match_Digit: "MatchString Digit s = (\<exists>c. s = [c] \<and> digit c)"
  by (cases s) (auto simp: match_Null match_Eps)

lemma match_lits: "MatchString (lits w) s = (s = w)"
  by (induction w arbitrary: s) (auto simp: match_Eps match_Cat match_Lit)

lemma match_Star_Lit: "MatchString (Star (Lit a)) s = (s = replicate (length s) a)"
proof (induction s)
  case Nil
  then show ?case by simp
next
  case (Cons c cs)
  then show ?case
    by (auto simp: match_Cat match_Null match_Eps)
qed

lemma match_Star_Digit: "MatchString (Star Digit) s = list_all digit s"
proof (induction s)
  case Nil
  then show ?case by simp
next
  case (Cons c cs)
  then show ?case
    by (auto simp: match_Cat match_Null match_Eps)
qed

lemma match_Plus_Digit: "MatchString (Plus Digit) s = (s \<noteq> [] \<and> list_all digit s)"
proof (cases s)
  case Nil
  then show ?thesis
    unfolding Plus_def match_Cat match_Digit by simp
next
  case (Cons c cs)
  have "(\<exists>u v. c # cs = u @ v \<and> (\<exists>d. u = [d] \<and> digit d) \<and> list_all digit v) =
        (digit c \<and> list_all digit cs)"
  proof
    assume "\<exists>u v. c # cs = u @ v \<and> (\<exists>d. u = [d] \<and> digit d) \<and> list_all digit v"
    then obtain v d where "c # cs = [d] @ v" "digit d" "list_all digit v" by blast
    then show "digit c \<and> list_all digit cs" by simp
  next
    assume "digit c \<and> list_all digit cs"
    then have "c # cs = [c] @ cs \<and> (\<exists>d. [c] = [d] \<and> digit d) \<and> list_all digit cs"
      by simp
    then show "\<exists>u v. c # cs = u @ v \<and> (\<exists>d. u = [d] \<and> digit d) \<and> list_all digit v"
      by blast
  qed
  with Cons show ?thesis
    unfolding Plus_def match_Cat match_Digit match_Star_Digit by simp
qed

lemma listUsersRe_iff:
  "MatchString listUsersRe p = (\<exists>n. p = ''/users'' @ replicate n CHR ''/'')"
proof
  assume "MatchString listUsersRe p"
  then obtain v where "p = ''/users'' @ v" "v = replicate (length v) CHR ''/''"
    unfolding listUsersRe_def match_Cat match_lits match_Star_Lit by blast
  then show "\<exists>n. p = ''/users'' @ replicate n CHR ''/''" by metis
next
  assume "\<exists>n. p = ''/users'' @ replicate n CHR ''/''"
  then obtain n where "p = ''/users'' @ replicate n CHR ''/''" by blast
  moreover have "MatchString (Star (Lit CHR ''/'')) (replicate n CHR ''/'')"
    by (simp add: match_Star_Lit)
  ultimately show "MatchString listUsersRe p"
    unfolding listUsersRe_def match_Cat match_lits by blast
qed

lemma getUserRe_iff:
  "MatchString getUserRe p = (\<exists>ds. p = ''/users/'' @ ds \<and> ds \<noteq> [] \<and> list_all digit ds)"
  unfolding getUserRe_def match_Cat match_lits match_Plus_Digit by blast

lemma create_eq_list: "createUserRe = listUsersRe"
  by (simp add: createUserRe_def listUsersRe_def)

subsection \<open>Routing and single requests\<close>

lemma range_append_eq: "range_append kvs users = users @ map snd kvs"
  by (induction kvs arbitrary: users) auto

lemma FindStringSubmatch_match:
  "MatchString getUserRe p \<Longrightarrow> FindStringSubmatch p = [p, drop 7 p]"
  by (simp add: FindStringSubmatch_def)

lemma FindStringSubmatch_nomatch:
  "\<not> MatchString getUserRe p \<Longrightarrow> FindStringSubmatch p = []"
  by (simp add: FindStringSubmatch_def)

lemma getUserRe_key: "ds \<noteq> [] \<Longrightarrow> list_all digit ds \<Longrightarrow> MatchString getUserRe (''/users/'' @ ds)"
  unfolding getUserRe_iff by blast

lemma list_not_get: "MatchString listUsersRe p \<Longrightarrow> \<not> MatchString getUserRe p"
proof
  assume "MatchString listUsersRe p" and "MatchString getUserRe p"
  then obtain n ds where p: "p = ''/users'' @ replicate n CHR ''/''"
    and q: "p = ''/users/'' @ ds" and ds: "ds \<noteq> []" "list_all digit ds"
    unfolding listUsersRe_iff getUserRe_iff by blast
  from p q have "replicate n CHR ''/'' = CHR ''/'' # ds" by simp
  then have "set ds \<subseteq> {CHR ''/''}"
    by (metis set_replicate_conv_if set_subset_Cons subset_trans empty_subsetI subset_refl)
  with ds show False
    by (cases ds) (auto simp: digit_def)
qed

lemma route_get_key:
  "ds \<noteq> [] \<Longrightarrow> list_all digit ds \<Longrightarrow> route \<lparr>Method = MethodGet, Path = ''/users/'' @ ds, Body = b\<rparr> = RGet"
  using getUserRe_key[of ds] list_not_get[of "''/users/'' @ ds"]
  by (auto simp: route_def)

lemma store_after_serve:
  "store_m (final (serve js st r)) =
     (case route r of
        RCreate \<Rightarrow> (case Decode js (Body r) of None \<Rightarrow> st | Some u \<Rightarrow> AList.update (ID u) u st)
      | _ \<Rightarrow> st)"
  by (auto simp: serve_def ServeHTTP_def List_def Get_def Create_def Let_def mu_def respond_def
      split: handler.splits option.splits)

lemmas handler_defs = serve_def ServeHTTP_def List_def Get_def Create_def Let_def mu_def
  respond_def ok_def notFound_def badRequest_def internalServerError_def

lemmas eval_defs = handler_defs route_def MethodGet_def MethodPost_def listUsersRe_def
  getUserRe_def createUserRe_def Plus_def digit_def FindStringSubmatch_def

lemma route_get_match: "route r = RGet \<Longrightarrow> MatchString getUserRe (Path r)"
  by (auto simp: route_def split: if_splits)

lemma serve_get:
  assumes "route r = RGet"
  shows "serve js st r =
     Return \<lparr>resp = SetHeader ''content-type'' ''application/json'' #
                (case map_of st (drop 7 (Path r)) of
                   None \<Rightarrow> notFound []
                 | Some u \<Rightarrow> (case Marshal js (JUser u) of
                      None \<Rightarrow> internalServerError []
                    | Some jsonBytes \<Rightarrow> ok jsonBytes [])),
             store_m = st, store_mu = [RLock, MapIndex (drop 7 (Path r)), RUnlock]\<rparr>"
proof -
  have m: "FindStringSubmatch (Path r) = [Path r, drop 7 (Path r)]"
    using FindStringSubmatch_match[OF route_get_match[OF assms]] .
  show ?thesis
    using assms by (simp add: handler_defs m split: option.splits)
qed

lemma serve_get_routed:
  assumes "ds \<noteq> []" "list_all digit ds"
  shows "serve js st \<lparr>Method = MethodGet, Path = ''/users/'' @ ds, Body = b\<rparr> =
     Return \<lparr>resp = SetHeader ''content-type'' ''application/json'' #
                (case map_of st ds of
                   None \<Rightarrow> notFound []
                 | Some u \<Rightarrow> (case Marshal js (JUser u) of
                      None \<Rightarrow> internalServerError []
                    | Some jsonBytes \<Rightarrow> ok jsonBytes [])),
             store_m = st, store_mu = [RLock, MapIndex ds, RUnlock]\<rparr>"
  using serve_get[OF route_get_key[OF assms, of b], of js st] by simp

lemma get_submatch_short: "(length (FindStringSubmatch p) < 2) = (\<not> MatchString getUserRe p)"
  by (simp add: FindStringSubmatch_def)

lemma serve_keeps_key:
  assumes "\<not> creates_key js k q"
  shows "map_of (store_m (final (serve js st q))) k = map_of st k"
proof (cases "route q = RCreate")
  case False
  then show ?thesis
    by (simp add: store_after_serve split: handler.splits)
next
  case True
  show ?thesis
  proof (cases "Decode js (Body q)")
    case None
    with True show ?thesis by (simp add: store_after_serve)
  next
    case (Some v)
    with True assms have "ID v \<noteq> k" by (simp add: creates_key_def)
    with True Some show ?thesis
      by (simp add: store_after_serve update_conv')
  qed
qed

lemma serve_all_keeps_key:
  "list_all (\<lambda>q. \<not> creates_key js k q) qs \<Longrightarrow> map_of (serve_all js st qs) k = map_of st k"
  by (induction qs arbitrary: st) (simp_all add: serve_keeps_key)

lemma serve_create:
  assumes "route r = RCreate" "Decode js (Body r) = Some u"
  shows "serve js st r =
     Return \<lparr>resp = SetHeader ''content-type'' ''application/json'' #
                (case Marshal js (JUser u) of
                   None \<Rightarrow> internalServerError []
                 | Some jsonBytes \<Rightarrow> ok jsonBytes []),
             store_m = AList.update (ID u) u st,
             store_mu = [Lock, MapAssign (ID u), Unlock]\<rparr>"
  using assms by (simp add: handler_defs split: option.splits)

lemma count_key_update:
  "distinct (map fst al) \<Longrightarrow> length (filter (\<lambda>kv. fst kv = k) (AList.update k v al)) = 1"
proof (induction al)
  case Nil
  then show ?case by simp
next
  case (Cons p ps)
  show ?case
  proof (cases "fst p = k")
    case True
    with Cons.prems have "k \<notin> fst ` set ps" by auto
    then have "filter (\<lambda>kv. fst kv = k) ps = []"
      by (auto simp: filter_empty_conv)
    with True show ?thesis by simp
  next
    case False
    with Cons show ?thesis by simp
  qed
qed

lemma serve_resp_not_list:
  assumes "route q \<noteq> RList"
  shows "resp (final (serve js st' q)) = resp (final (serve js st q)) \<or>
         (route q = RGet \<and> map_of st' (drop 7 (Path q)) \<noteq> map_of st (drop 7 (Path q)))"
proof (cases "route q")
  case RList
  with assms show ?thesis by simp
next
  case RGet
  then show ?thesis
    by (cases "map_of st' (drop 7 (Path q)) = map_of st (drop 7 (Path q))")
       (simp_all add: serve_get)
next
  case RCreate
  then show ?thesis
    by (cases "Decode js (Body q)") (simp_all add: handler_defs split: option.splits)
next
  case RNotFound
  then show ?thesis
    by (simp add: handler_defs)
qed

lemma get_key_digits:
  assumes "route q = RGet"
  shows "drop 7 (Path q) \<noteq> [] \<and> list_all digit (drop 7 (Path q))"
proof -
  from route_get_match[OF assms] obtain ds where
    "Path q = ''/users/'' @ ds" "ds \<noteq> []" "list_all digit ds"
    unfolding getUserRe_iff by blast
  then show ?thesis by simp
qed

text \<open>
  The handlers other than \<open>List\<close> touch the map only while they hold the lock.
\<close>

lemma get_create_guarded:
  "route r = RGet \<or> route r = RCreate \<or> route r = RNotFound \<Longrightarrow>
   guarded Unheld (store_mu (final (serve js st r)))"
proof (cases "route r")
  case RGet
  then show ?thesis by (simp add: serve_get)
next
  case RCreate
  then show ?thesis
    by (cases "Decode js (Body r)") (simp_all add: handler_defs split: option.splits)
next
  case RNotFound
  then show ?thesis by (simp add: handler_defs)
qed simp

section \<open>The claims\<close>

subsection \<open>C1: a created user can be fetched\<close>

text \<open>
  Claim C1, as amended. Let a request reach \<open>Create\<close> with a body that decodes to a
  user \<open>u\<close> whose id is a non-empty string of decimal digits, and let \<open>u\<close> marshal to
  \<open>jsonBytes\<close>. Then \<open>Create\<close> answers 200 with \<open>jsonBytes\<close> and stores \<open>u\<close> under its
  id, and after any further requests, none of which creates a user with the same id, a
  GET of \<open>/users/\<close> followed by the id answers 200 with exactly \<open>jsonBytes\<close>.
\<close>

theorem create_then_get:
  assumes "route r = RCreate"
    and "Decode js (Body r) = Some u"
    and "Marshal js (JUser u) = Some jsonBytes"
    and "ID u \<noteq> []" and "list_all digit (ID u)"
    and "list_all (\<lambda>q. \<not> creates_key js (ID u) q) qs"
  shows "serve js st r =
           Return \<lparr>resp = [SetHeader ''content-type'' ''application/json'',
                            WriteHeader 200, Write jsonBytes],
                   store_m = AList.update (ID u) u st,
                   store_mu = [Lock, MapAssign (ID u), Unlock]\<rparr> \<and>
         serve js (serve_all js st (r # qs))
             \<lparr>Method = ''GET'', Path = ''/users/'' @ ID u, Body = b\<rparr> =
           Return \<lparr>resp = [SetHeader ''content-type'' ''application/json'',
                            WriteHeader 200, Write jsonBytes],
                   store_m = serve_all js st (r # qs),
                   store_mu = [RLock, MapIndex (ID u), RUnlock]\<rparr>"
proof -
  have c: "serve js st r =
           Return \<lparr>resp = [SetHeader ''content-type'' ''application/json'',
                            WriteHeader 200, Write jsonBytes],
                   store_m = AList.update (ID u) u st,
                   store_mu = [Lock, MapAssign (ID u), Unlock]\<rparr>"
    using serve_create[OF assms(1,2), of st] assms(3) by (simp add: ok_def)
  have "map_of (serve_all js st (r # qs)) (ID u) = map_of (AList.update (ID u) u st) (ID u)"
    using serve_all_keeps_key[OF assms(6)] c by simp
  then have "map_of (serve_all js st (r # qs)) (ID u) = Some u"
    by (simp add: update_conv')
  then have "serve js (serve_all js st (r # qs))
             \<lparr>Method = ''GET'', Path = ''/users/'' @ ID u, Body = b\<rparr> =
           Return \<lparr>resp = [SetHeader ''content-type'' ''application/json'',
                            WriteHeader 200, Write jsonBytes],
                   store_m = serve_all js st (r # qs),
                   store_mu = [RLock, MapIndex (ID u), RUnlock]\<rparr>"
    using serve_get_routed[OF assms(4,5), of js "serve_all js st (r # qs)" b] assms(3)
    by (simp add: MethodGet_def ok_def)
  with c show ?thesis by simp
qed

text \<open>
  C1 at work: user 2001 is created on the store of main.go, a listing and the creation of
  another user follow, and user 2001 is fetched.
\<close>

theorem create_then_get_witness:
  \<open>route \<lparr>Method = ''POST'', Path = ''/users'', Body = ''{"id":"2001","name":"X"}''\<rparr> = RCreate \<and>
   Decode sample_json ''{"id":"2001","name":"X"}'' = Some \<lparr>ID = ''2001'', Name = ''X''\<rparr> \<and>
   Marshal sample_json (JUser \<lparr>ID = ''2001'', Name = ''X''\<rparr>) = Some ''{"id":"2001","name":"X"}'' \<and>
   list_all digit ''2001'' \<and>
   list_all (\<lambda>q. \<not> creates_key sample_json ''2001'' q)
     [\<lparr>Method = ''GET'', Path = ''/users'', Body = []\<rparr>,
      \<lparr>Method = ''POST'', Path = ''/users/'', Body = ''{"id":"abc","name":"X"}''\<rparr>] \<and>
   serve sample_json
     (serve_all sample_json main_store
        [\<lparr>Method = ''POST'', Path = ''/users'', Body = ''{"id":"2001","name":"X"}''\<rparr>,
         \<lparr>Method = ''GET'', Path = ''/users'', Body = []\<rparr>,
         \<lparr>Method = ''POST'', Path = ''/users/'', Body = ''{"id":"abc","name":"X"}''\<rparr>])
     \<lparr>Method = ''GET'', Path = ''/users/2001'', Body = []\<rparr> =
   Return \<lparr>resp = [SetHeader ''content-type'' ''application/json'', WriteHeader 200,
                    Write ''{"id":"2001","name":"X"}''],
           store_m = main_store @
             [(''2001'', \<lparr>ID = ''2001'', Name = ''X''\<rparr>), (''abc'', \<lparr>ID = ''abc'', Name = ''X''\<rparr>)],
           store_mu = [RLock, MapIndex ''2001'', RUnlock]\<rparr>\<close>
proof -
  let ?r = \<open>\<lparr>Method = ''POST'', Path = ''/users'', Body = ''{"id":"2001","name":"X"}''\<rparr>\<close>
  let ?u = "\<lparr>ID = ''2001'', Name = ''X''\<rparr>"
  let ?qs = \<open>[\<lparr>Method = ''GET'', Path = ''/users'', Body = []\<rparr>,
      \<lparr>Method = ''POST'', Path = ''/users/'', Body = ''{"id":"abc","name":"X"}''\<rparr>]\<close>
  have h1: "route ?r = RCreate"
    by (simp add: route_def MethodGet_def MethodPost_def createUserRe_def)
  have h2: "Decode sample_json (Body ?r) = Some ?u"
    by (simp add: sample_json_def sample_Decode_def)
  have h3: \<open>Marshal sample_json (JUser ?u) = Some ''{"id":"2001","name":"X"}''\<close>
    by (simp add: sample_json_def object_def)
  have h4: "ID ?u \<noteq> []" by simp
  have h5: "list_all digit (ID ?u)" by (simp add: digit_def)
  have h6: "list_all (\<lambda>q. \<not> creates_key sample_json (ID ?u) q) ?qs"
    by (simp add: creates_key_def route_def MethodGet_def MethodPost_def listUsersRe_def
        createUserRe_def sample_json_def sample_Decode_def)
  have st: "serve_all sample_json main_store (?r # ?qs) = main_store @
             [(''2001'', \<lparr>ID = ''2001'', Name = ''X''\<rparr>), (''abc'', \<lparr>ID = ''abc'', Name = ''X''\<rparr>)]"
    by (simp add: store_after_serve route_def MethodGet_def MethodPost_def listUsersRe_def
        createUserRe_def sample_json_def sample_Decode_def main_store_def)
  have g: \<open>serve sample_json (serve_all sample_json main_store (?r # ?qs))
             \<lparr>Method = ''GET'', Path = ''/users/2001'', Body = []\<rparr> =
           Return \<lparr>resp = [SetHeader ''content-type'' ''application/json'',
                            WriteHeader 200, Write ''{"id":"2001","name":"X"}''],
                   store_m = serve_all sample_json main_store (?r # ?qs),
                   store_mu = [RLock, MapIndex ''2001'', RUnlock]\<rparr>\<close>
    using create_then_get[OF h1 h2 h3 h4 h5 h6, of main_store "[]"]
    by (simp del: serve_all.simps)
  show ?thesis
    using h1 h2 h3 h5 h6 g[unfolded st] by (simp add: st del: serve_all.simps)
qed

text \<open>
  C1 as stated, for every id, fails: a body with the id \<open>abc\<close> is accepted by \<open>Create\<close>
  with 200, and the GET of \<open>/users/abc\<close> that follows is answered 404, since that path
  does not match \<open>getUserRe\<close>.
\<close>

theorem create_then_get_counterexample:
  \<open>Decode sample_json ''{"id":"abc","name":"X"}'' = Some \<lparr>ID = ''abc'', Name = ''X''\<rparr> \<and>
   status_code (resp (final (serve sample_json main_store
      \<lparr>Method = ''POST'', Path = ''/users'', Body = ''{"id":"abc","name":"X"}''\<rparr>))) = Some 200 \<and>
   status_code (resp (final (serve sample_json
      (serve_all sample_json main_store
         [\<lparr>Method = ''POST'', Path = ''/users'', Body = ''{"id":"abc","name":"X"}''\<rparr>])
      \<lparr>Method = ''GET'', Path = ''/users/'' @ ''abc'', Body = []\<rparr>))) = Some 404\<close>
  by (simp add: eval_defs main_store_def sample_json_def sample_Decode_def object_def)

subsection \<open>C2: a rejected body changes nothing\<close>

text \<open>
  Claim C2, as amended. When \<open>Decode\<close> returns an error on the body of the request,
  \<open>Create\<close> writes status 400 and the bad-request body and nothing else, and leaves
  the map as it was: served through the dispatcher the request leaves the store
  unchanged, and every later request, a listing in particular, is answered as it would
  have been without it. The error of \<open>Decode\<close> is the only test \<open>Create\<close> makes: a
  body that decodes is stored whatever its shape (\<open>serve_create\<close>).
\<close>

theorem create_bad_request_atomic:
  assumes "Decode js (Body r) = None"
  shows \<open>Create js s r = s\<lparr>resp := resp s @ [WriteHeader 400, Write ''{"error" : "bad request"}'']\<rparr> \<and>
         store_m (Create js s r) = store_m s \<and>
         (route r = RCreate \<longrightarrow>
            serve js st r =
              Return \<lparr>resp = [SetHeader ''content-type'' ''application/json'', WriteHeader 400,
                               Write ''{"error" : "bad request"}''],
                      store_m = st, store_mu = []\<rparr> \<and>
            serve js (serve_all js st [r]) q = serve js st q)\<close>
  using assms by (simp add: handler_defs)

text \<open>
  C2 at work: a body that is not JSON, posted to \<open>/users\<close>, and a listing after it.
\<close>

theorem create_bad_request_atomic_witness:
  \<open>Decode sample_json (Body \<lparr>Method = ''POST'', Path = ''/users'', Body = ''not json''\<rparr>) = None \<and>
   route \<lparr>Method = ''POST'', Path = ''/users'', Body = ''not json''\<rparr> = RCreate \<and>
   serve sample_json main_store \<lparr>Method = ''POST'', Path = ''/users'', Body = ''not json''\<rparr> =
     Return \<lparr>resp = [SetHeader ''content-type'' ''application/json'', WriteHeader 400,
                      Write ''{"error" : "bad request"}''],
             store_m = main_store, store_mu = []\<rparr> \<and>
   serve sample_json
      (serve_all sample_json main_store [\<lparr>Method = ''POST'', Path = ''/users'', Body = ''not json''\<rparr>])
      \<lparr>Method = ''GET'', Path = ''/users'', Body = []\<rparr> =
   serve sample_json main_store \<lparr>Method = ''GET'', Path = ''/users'', Body = []\<rparr>\<close>
proof -
  let ?r = "\<lparr>Method = ''POST'', Path = ''/users'', Body = ''not json''\<rparr>"
  have h: "Decode sample_json (Body ?r) = None"
    by (simp add: sample_json_def sample_Decode_def)
  have rt: "route ?r = RCreate"
    by (simp add: route_def MethodGet_def MethodPost_def createUserRe_def)
  show ?thesis
    using h rt create_bad_request_atomic[OF h, of "\<lparr>resp = [], store_m = main_store, store_mu = []\<rparr>"
        main_store "\<lparr>Method = ''GET'', Path = ''/users'', Body = []\<rparr>"]
    by simp
qed

text \<open>
  C2 as stated, for every body that is not of the shape of a user, fails: the body
  \<open>{"foo":1}\<close> has neither field of a user, \<open>Decode\<close> returns no error on it, and
  \<open>Create\<close> answers 200 and stores the zero user under the empty key, which the map
  did not have; the listing that follows is not the one before.
\<close>

theorem create_bad_request_atomic_counterexample:
  \<open>Decode sample_json ''{"foo":1}'' = Some \<lparr>ID = [], Name = []\<rparr> \<and>
   serve sample_json main_store \<lparr>Method = ''POST'', Path = ''/users'', Body = ''{"foo":1}''\<rparr> =
     Return \<lparr>resp = [SetHeader ''content-type'' ''application/json'', WriteHeader 200,
                      Write ''{"id":"","name":""}''],
             store_m = main_store @ [([], \<lparr>ID = [], Name = []\<rparr>)],
             store_mu = [Lock, MapAssign [], Unlock]\<rparr> \<and>
   map_of main_store [] = None \<and>
   map_of (serve_all sample_json main_store
      [\<lparr>Method = ''POST'', Path = ''/users'', Body = ''{"foo":1}''\<rparr>]) [] =
     Some \<lparr>ID = [], Name = []\<rparr> \<and>
   serve sample_json
      (serve_all sample_json main_store
         [\<lparr>Method = ''POST'', Path = ''/users'', Body = ''{"foo":1}''\<rparr>])
      \<lparr>Method = ''GET'', Path = ''/users'', Body = []\<rparr> \<noteq>
   serve sample_json main_store \<lparr>Method = ''GET'', Path = ''/users'', Body = []\<rparr>\<close>
  by (simp add: eval_defs main_store_def sample_json_def sample_Decode_def object_def)

subsection \<open>C3: routing\<close>

text \<open>
  Claim C3, as amended. The dispatcher is total and selects \<open>List\<close> exactly when the
  method is GET and the path is \<open>/users\<close> followed by any number of slashes (none, one or
  more), \<open>Get\<close> exactly when the method is GET and the path is \<open>/users/\<close> followed by
  one or more decimal digits and nothing else, \<open>Create\<close> exactly when the method is POST
  and the path is \<open>/users\<close> followed by any number of slashes; every other request is
  answered with the not-found response. \<open>ServeHTTP\<close> sets the content type and runs the
  selected handler.
\<close>

theorem route_exact:
  \<open>(route r = RList) =
     (Method r = ''GET'' \<and> (\<exists>n. Path r = ''/users'' @ replicate n CHR ''/''))
   \<and> (route r = RGet) =
     (Method r = ''GET'' \<and> (\<exists>ds. Path r = ''/users/'' @ ds \<and> ds \<noteq> [] \<and> list_all digit ds))
   \<and> (route r = RCreate) =
     (Method r = ''POST'' \<and> (\<exists>n. Path r = ''/users'' @ replicate n CHR ''/''))
   \<and> (route r = RNotFound) =
     (\<not> (Method r = ''GET'' \<and> (\<exists>n. Path r = ''/users'' @ replicate n CHR ''/''))
      \<and> \<not> (Method r = ''GET'' \<and> (\<exists>ds. Path r = ''/users/'' @ ds \<and> ds \<noteq> [] \<and> list_all digit ds))
      \<and> \<not> (Method r = ''POST'' \<and> (\<exists>n. Path r = ''/users'' @ replicate n CHR ''/'')))
   \<and> ServeHTTP js s r =
     (case route r of
        RList \<Rightarrow> Return (List js (s\<lparr>resp := resp s @ [SetHeader ''content-type'' ''application/json'']\<rparr>))
      | RGet \<Rightarrow> Get js (s\<lparr>resp := resp s @ [SetHeader ''content-type'' ''application/json'']\<rparr>) r
      | RCreate \<Rightarrow> Return (Create js (s\<lparr>resp := resp s @ [SetHeader ''content-type'' ''application/json'']\<rparr>) r)
      | RNotFound \<Rightarrow> Return (s\<lparr>resp := resp s @ [SetHeader ''content-type'' ''application/json'',
            WriteHeader 404, Write ''{"error" : "not found"}'']\<rparr>))\<close>
proof -
  have g: "MatchString getUserRe (Path r) \<Longrightarrow> \<not> MatchString listUsersRe (Path r)"
    using list_not_get by blast
  have l: "MatchString listUsersRe (Path r) = (\<exists>n. Path r = ''/users'' @ replicate n CHR ''/'')"
    by (rule listUsersRe_iff)
  have u: "MatchString getUserRe (Path r) =
      (\<exists>ds. Path r = ''/users/'' @ ds \<and> ds \<noteq> [] \<and> list_all digit ds)"
    by (rule getUserRe_iff)
  have 1: "(route r = RList) = (Method r = ''GET'' \<and> MatchString listUsersRe (Path r))"
    by (simp add: route_def MethodGet_def)
  have 2: "(route r = RGet) = (Method r = ''GET'' \<and> MatchString getUserRe (Path r))"
    using g by (auto simp: route_def MethodGet_def)
  have 3: "(route r = RCreate) = (Method r = ''POST'' \<and> MatchString listUsersRe (Path r))"
    by (auto simp: route_def MethodGet_def MethodPost_def create_eq_list)
  have 4: "(route r = RNotFound) =
     (\<not> (Method r = ''GET'' \<and> MatchString listUsersRe (Path r))
      \<and> \<not> (Method r = ''GET'' \<and> MatchString getUserRe (Path r))
      \<and> \<not> (Method r = ''POST'' \<and> MatchString listUsersRe (Path r)))"
    by (auto simp: route_def MethodGet_def MethodPost_def create_eq_list)
  have 5: \<open>ServeHTTP js s r =
     (case route r of
        RList \<Rightarrow> Return (List js (s\<lparr>resp := resp s @ [SetHeader ''content-type'' ''application/json'']\<rparr>))
      | RGet \<Rightarrow> Get js (s\<lparr>resp := resp s @ [SetHeader ''content-type'' ''application/json'']\<rparr>) r
      | RCreate \<Rightarrow> Return (Create js (s\<lparr>resp := resp s @ [SetHeader ''content-type'' ''application/json'']\<rparr>) r)
      | RNotFound \<Rightarrow> Return (s\<lparr>resp := resp s @ [SetHeader ''content-type'' ''application/json'',
            WriteHeader 404, Write ''{"error" : "not found"}'']\<rparr>))\<close>
    by (simp add: ServeHTTP_def Let_def respond_def notFound_def split: handler.splits)
  show ?thesis
    unfolding 1 2 3 4 l u using 5 by simp
qed

text \<open>
  C3 at work on GET \<open>/users/12\<close>.
\<close>

theorem route_exact_witness:
  "route \<lparr>Method = ''GET'', Path = ''/users/12'', Body = []\<rparr> = RGet \<and>
   route \<lparr>Method = ''GET'', Path = ''/users/12'', Body = []\<rparr> \<noteq> RList \<and>
   ''/users/12'' = ''/users/'' @ ''12'' \<and> list_all digit ''12''"
  using route_exact[of "\<lparr>Method = ''GET'', Path = ''/users/12'', Body = []\<rparr>"]
  by (simp add: digit_def)

text \<open>
  C3 as stated, with \<open>/users\<close> and \<open>/users/\<close> the only paths of \<open>List\<close>, fails: the
  starred class of \<open>listUsersRe\<close> takes any number of slashes, so a GET of
  \<open>/users//\<close> is a listing.
\<close>

theorem route_trailing_slashes_counterexample:
  "route \<lparr>Method = ''GET'', Path = ''/users//'', Body = []\<rparr> = RList \<and>
   ''/users//'' \<noteq> ''/users'' \<and> ''/users//'' \<noteq> ''/users/''"
  by (simp add: route_def MethodGet_def listUsersRe_def)

subsection \<open>C4: one status and one body for each request\<close>

text \<open>
  Claim C4. For every request that goes through the dispatcher, from any state, the
  handler returns (it does not panic) and the calls it has made on the response writer
  are: the content type, then one \<open>WriteHeader\<close>, then one \<open>Write\<close>, and nothing after.
  The body is what \<open>json.Marshal\<close> returned when the status is 200, and otherwise the
  fixed body that belongs to the status.
\<close>

theorem single_response:
  \<open>\<exists>s' code body.
     ServeHTTP js s r = Return s' \<and>
     resp s' = resp s @ [SetHeader ''content-type'' ''application/json'', WriteHeader code, Write body] \<and>
     (if code = 200 then \<exists>v. Marshal js v = Some body
      else (code, body) \<in> set [(400, ''{"error" : "bad request"}''),
                              (404, ''{"error" : "not found"}''),
                              (500, ''{"error" : "interval server error"}'')])\<close>
proof -
  let ?G = ?thesis
  let ?ct = "SetHeader ''content-type'' ''application/json''"
  let ?s0 = "s\<lparr>resp := resp s @ [?ct]\<rparr>"
  have fin: \<open>\<And>s' code body.
      ServeHTTP js s r = Return s' \<Longrightarrow>
      resp s' = resp s @ [?ct, WriteHeader code, Write body] \<Longrightarrow>
      (if code = 200 then \<exists>v. Marshal js v = Some body
       else (code, body) \<in> set [(400, ''{"error" : "bad request"}''),
                               (404, ''{"error" : "not found"}''),
                               (500, ''{"error" : "interval server error"}'')]) \<Longrightarrow> ?G\<close>
    by blast
  have marshalled: "\<And>v t. ServeHTTP js s r =
        Return (case Marshal js v of
                  None \<Rightarrow> t\<lparr>resp := internalServerError (resp s @ [?ct])\<rparr>
                | Some jsonBytes \<Rightarrow> t\<lparr>resp := ok jsonBytes (resp s @ [?ct])\<rparr>) \<Longrightarrow> ?G"
  proof -
    fix v t
    assume eq: "ServeHTTP js s r =
        Return (case Marshal js v of
                  None \<Rightarrow> t\<lparr>resp := internalServerError (resp s @ [?ct])\<rparr>
                | Some jsonBytes \<Rightarrow> t\<lparr>resp := ok jsonBytes (resp s @ [?ct])\<rparr>)"
    show ?G
    proof (cases "Marshal js v")
      case None
      with eq show ?G
        by (intro fin[of "t\<lparr>resp := internalServerError (resp s @ [?ct])\<rparr>" 500
              \<open>''{"error" : "interval server error"}''\<close>])
           (simp_all add: internalServerError_def)
    next
      case (Some jsonBytes)
      with eq show ?G
        by (intro fin[of "t\<lparr>resp := ok jsonBytes (resp s @ [?ct])\<rparr>" 200 jsonBytes])
           (auto simp: ok_def)
    qed
  qed
  show ?G
  proof (cases "route r")
    case RList
    then show ?G
      by (intro marshalled[where v = "JUsers (range_append (store_m s) [])"
            and ?t = "s\<lparr>store_mu := store_mu s @ [MapLen, RLock, MapRange, RUnlock]\<rparr>"])
         (simp add: ServeHTTP_def List_def Let_def mu_def respond_def split: option.splits)
  next
    case RGet
    then have m: "FindStringSubmatch (Path r) = [Path r, drop 7 (Path r)]"
      by (intro FindStringSubmatch_match route_get_match)
    let ?key = "drop 7 (Path r)"
    let ?s3 = "s\<lparr>store_mu := store_mu s @ [RLock, MapIndex ?key, RUnlock]\<rparr>"
    show ?G
    proof (cases "map_of (store_m s) ?key")
      case None
      with RGet m show ?G
        by (intro fin[of "?s3\<lparr>resp := notFound (resp s @ [?ct])\<rparr>" 404
              \<open>''{"error" : "not found"}''\<close>])
           (simp_all add: ServeHTTP_def Get_def Let_def mu_def respond_def notFound_def)
    next
      case (Some u)
      with RGet m show ?G
        by (intro marshalled[where v = "JUser u" and ?t = ?s3])
           (simp add: ServeHTTP_def Get_def Let_def mu_def respond_def split: option.splits)
    qed
  next
    case RCreate
    show ?G
    proof (cases "Decode js (Body r)")
      case None
      with RCreate show ?G
        by (intro fin[of "s\<lparr>resp := badRequest (resp s @ [?ct])\<rparr>" 400
              \<open>''{"error" : "bad request"}''\<close>])
           (simp_all add: ServeHTTP_def Create_def respond_def badRequest_def)
    next
      case (Some u)
      with RCreate show ?G
        by (intro marshalled[where v = "JUser u"
              and ?t = "s\<lparr>store_m := AList.update (ID u) u (store_m s),
                 store_mu := store_mu s @ [Lock, MapAssign (ID u), Unlock]\<rparr>"])
           (simp add: ServeHTTP_def Create_def Let_def mu_def respond_def split: option.splits)
    qed
  next
    case RNotFound
    then show ?G
      by (intro fin[of "s\<lparr>resp := notFound (resp s @ [?ct])\<rparr>" 404
            \<open>''{"error" : "not found"}''\<close>])
         (simp_all add: ServeHTTP_def respond_def notFound_def)
  qed
qed

text \<open>
  C4 at work on a POST whose body is not JSON.
\<close>

theorem single_response_witness:
  \<open>\<exists>s' code body.
     ServeHTTP sample_json \<lparr>resp = [], store_m = main_store, store_mu = []\<rparr>
        \<lparr>Method = ''POST'', Path = ''/users'', Body = ''not json''\<rparr> = Return s' \<and>
     resp s' = [] @ [SetHeader ''content-type'' ''application/json'', WriteHeader code, Write body] \<and>
     (if code = 200 then \<exists>v. Marshal sample_json v = Some body
      else (code, body) \<in> set [(400, ''{"error" : "bad request"}''),
                              (404, ''{"error" : "not found"}''),
                              (500, ''{"error" : "interval server error"}'')])\<close>
  using single_response[of sample_json "\<lparr>resp = [], store_m = main_store, store_mu = []\<rparr>"
      "\<lparr>Method = ''POST'', Path = ''/users'', Body = ''not json''\<rparr>"]
  by simp

subsection \<open>C5: Get does not return after a failed capture\<close>

text \<open>
  Claim C5. When \<open>FindStringSubmatch\<close> yields fewer than two strings, \<open>Get\<close> writes
  the not-found response, does not return, takes the read lock and indexes
  \<open>matches[1]\<close>: it panics with an index out of range, the not-found response written
  and the read lock still held.
\<close>

theorem get_capture_failure:
  assumes "length (FindStringSubmatch (Path r)) < 2"
  shows \<open>Get js s r =
     Panic (IndexOutOfRange 1 (length (FindStringSubmatch (Path r))))
       (s\<lparr>resp := resp s @ [WriteHeader 404, Write ''{"error" : "not found"}''],
          store_mu := store_mu s @ [RLock]\<rparr>)\<close>
  using assms by (simp add: Get_def Let_def mu_def respond_def notFound_def)

text \<open>
  C5 at work: \<open>Get\<close> called on the path \<open>/users/abc\<close>, which \<open>getUserRe\<close> does not
  match.
\<close>

theorem get_capture_failure_witness:
  \<open>length (FindStringSubmatch (Path \<lparr>Method = ''GET'', Path = ''/users/abc'', Body = []\<rparr>)) < 2 \<and>
   Get sample_json \<lparr>resp = [], store_m = main_store, store_mu = []\<rparr>
       \<lparr>Method = ''GET'', Path = ''/users/abc'', Body = []\<rparr> =
     Panic (IndexOutOfRange 1 0)
       \<lparr>resp = [WriteHeader 404, Write ''{"error" : "not found"}''],
        store_m = main_store, store_mu = [RLock]\<rparr>\<close>
proof -
  have n: "FindStringSubmatch ''/users/abc'' = []"
    by (simp add: FindStringSubmatch_def getUserRe_def Plus_def digit_def)
  then have h: "length (FindStringSubmatch (Path \<lparr>Method = ''GET'', Path = ''/users/abc'', Body = []\<rparr>)) < 2"
    by simp
  show ?thesis
    using h n get_capture_failure[OF h, of sample_json "\<lparr>resp = [], store_m = main_store, store_mu = []\<rparr>"]
    by simp
qed

subsection \<open>C6: the last write wins\<close>

text \<open>
  Claim C6, as amended. Two requests reach \<open>Create\<close>, with bodies that decode to the
  same id \<open>S\<close> and the names \<open>T1\<close> and \<open>T2\<close>. Afterwards the map has exactly one entry
  under \<open>S\<close>, and it holds the name \<open>T2\<close>. When \<open>S\<close> is a non-empty string of decimal
  digits, a GET of \<open>/users/\<close> followed by \<open>S\<close> looks this entry up and answers with the
  marshalled record of name \<open>T2\<close>.
\<close>

theorem create_overwrite:
  assumes "route r1 = RCreate" and "route r2 = RCreate"
    and "Decode js (Body r1) = Some \<lparr>ID = S, Name = T1\<rparr>"
    and "Decode js (Body r2) = Some \<lparr>ID = S, Name = T2\<rparr>"
    and "distinct (map fst st)"
  shows "length (filter (\<lambda>kv. fst kv = S) (serve_all js st [r1, r2])) = 1 \<and>
         map_of (serve_all js st [r1, r2]) S = Some \<lparr>ID = S, Name = T2\<rparr> \<and>
         (S \<noteq> [] \<and> list_all digit S \<longrightarrow>
            serve js (serve_all js st [r1, r2]) \<lparr>Method = ''GET'', Path = ''/users/'' @ S, Body = b\<rparr> =
              Return \<lparr>resp = SetHeader ''content-type'' ''application/json'' #
                         (case Marshal js (JUser \<lparr>ID = S, Name = T2\<rparr>) of
                            None \<Rightarrow> internalServerError []
                          | Some jsonBytes \<Rightarrow> [WriteHeader 200, Write jsonBytes]),
                      store_m = serve_all js st [r1, r2],
                      store_mu = [RLock, MapIndex S, RUnlock]\<rparr>)"
proof -
  let ?st1 = "AList.update S \<lparr>ID = S, Name = T1\<rparr> st"
  let ?st2 = "AList.update S \<lparr>ID = S, Name = T2\<rparr> ?st1"
  have st2: "serve_all js st [r1, r2] = ?st2"
    using assms(1-4) by (simp add: store_after_serve)
  have d1: "distinct (map fst ?st1)"
    using assms(5) by (rule distinct_update)
  have one: "length (filter (\<lambda>kv. fst kv = S) ?st2) = 1"
    using d1 by (rule count_key_update)
  have look: "map_of ?st2 S = Some \<lparr>ID = S, Name = T2\<rparr>"
    by (simp add: update_conv')
  have get: "S \<noteq> [] \<and> list_all digit S \<longrightarrow>
            serve js ?st2 \<lparr>Method = ''GET'', Path = ''/users/'' @ S, Body = b\<rparr> =
              Return \<lparr>resp = SetHeader ''content-type'' ''application/json'' #
                         (case Marshal js (JUser \<lparr>ID = S, Name = T2\<rparr>) of
                            None \<Rightarrow> internalServerError []
                          | Some jsonBytes \<Rightarrow> [WriteHeader 200, Write jsonBytes]),
                      store_m = ?st2,
                      store_mu = [RLock, MapIndex S, RUnlock]\<rparr>"
  proof
    assume "S \<noteq> [] \<and> list_all digit S"
    then have "S \<noteq> []" "list_all digit S" by simp_all
    from serve_get_routed[OF this, of js ?st2 b] look
    show "serve js ?st2 \<lparr>Method = ''GET'', Path = ''/users/'' @ S, Body = b\<rparr> =
              Return \<lparr>resp = SetHeader ''content-type'' ''application/json'' #
                         (case Marshal js (JUser \<lparr>ID = S, Name = T2\<rparr>) of
                            None \<Rightarrow> internalServerError []
                          | Some jsonBytes \<Rightarrow> [WriteHeader 200, Write jsonBytes]),
                      store_m = ?st2,
                      store_mu = [RLock, MapIndex S, RUnlock]\<rparr>"
      by (simp add: MethodGet_def ok_def split: option.splits)
  qed
  show ?thesis
    unfolding st2 using one look get by blast
qed

text \<open>
  C6 at work: user 2001 is created with name X and again with name Y.
\<close>

theorem create_overwrite_witness:
  \<open>distinct (map fst main_store) \<and>
   length (filter (\<lambda>kv. fst kv = ''2001'')
     (serve_all sample_json main_store
        [\<lparr>Method = ''POST'', Path = ''/users'', Body = ''{"id":"2001","name":"X"}''\<rparr>,
         \<lparr>Method = ''POST'', Path = ''/users'', Body = ''{"id":"2001","name":"Y"}''\<rparr>])) = 1 \<and>
   serve sample_json
     (serve_all sample_json main_store
        [\<lparr>Method = ''POST'', Path = ''/users'', Body = ''{"id":"2001","name":"X"}''\<rparr>,
         \<lparr>Method = ''POST'', Path = ''/users'', Body = ''{"id":"2001","name":"Y"}''\<rparr>])
     \<lparr>Method = ''GET'', Path = ''/users/2001'', Body = []\<rparr> =
   Return \<lparr>resp = [SetHeader ''content-type'' ''application/json'', WriteHeader 200,
                    Write ''{"id":"2001","name":"Y"}''],
           store_m = main_store @ [(''2001'', \<lparr>ID = ''2001'', Name = ''Y''\<rparr>)],
           store_mu = [RLock, MapIndex ''2001'', RUnlock]\<rparr>\<close>
proof -
  let ?r1 = \<open>\<lparr>Method = ''POST'', Path = ''/users'', Body = ''{"id":"2001","name":"X"}''\<rparr>\<close>
  let ?r2 = \<open>\<lparr>Method = ''POST'', Path = ''/users'', Body = ''{"id":"2001","name":"Y"}''\<rparr>\<close>
  have h1: "route ?r1 = RCreate" and h2: "route ?r2 = RCreate"
    by (simp_all add: route_def MethodGet_def MethodPost_def createUserRe_def)
  have h3: "Decode sample_json (Body ?r1) = Some \<lparr>ID = ''2001'', Name = ''X''\<rparr>"
    and h4: "Decode sample_json (Body ?r2) = Some \<lparr>ID = ''2001'', Name = ''Y''\<rparr>"
    by (simp_all add: sample_json_def sample_Decode_def)
  have h5: "distinct (map fst main_store)"
    by (simp add: main_store_def)
  have st: "serve_all sample_json main_store [?r1, ?r2] =
      main_store @ [(''2001'', \<lparr>ID = ''2001'', Name = ''Y''\<rparr>)]"
    using h1 h2 h3 h4 by (simp add: store_after_serve main_store_def)
  have m: \<open>Marshal sample_json (JUser \<lparr>ID = ''2001'', Name = ''Y''\<rparr>) = Some ''{"id":"2001","name":"Y"}''\<close>
    by (simp add: sample_json_def object_def)
  have d: "''2001'' \<noteq> [] \<and> list_all digit ''2001''"
    by (simp add: digit_def)
  show ?thesis
    using h5 st m d create_overwrite[OF h1 h2 h3 h4 h5, of "[]"]
    by simp
qed

text \<open>
  C6 as stated, for every key, fails where C1 does: after two creations under the id
  \<open>abc\<close> a GET of \<open>/users/abc\<close> is answered with the not-found response and returns no
  name.
\<close>

theorem create_overwrite_counterexample:
  \<open>Decode sample_json ''{"id":"abc","name":"X"}'' = Some \<lparr>ID = ''abc'', Name = ''X''\<rparr> \<and>
   Decode sample_json ''{"id":"abc","name":"Y"}'' = Some \<lparr>ID = ''abc'', Name = ''Y''\<rparr> \<and>
   resp (final (serve sample_json
      (serve_all sample_json main_store
         [\<lparr>Method = ''POST'', Path = ''/users'', Body = ''{"id":"abc","name":"X"}''\<rparr>,
          \<lparr>Method = ''POST'', Path = ''/users'', Body = ''{"id":"abc","name":"Y"}''\<rparr>])
      \<lparr>Method = ''GET'', Path = ''/users/'' @ ''abc'', Body = []\<rparr>)) =
     [SetHeader ''content-type'' ''application/json'', WriteHeader 404,
      Write ''{"error" : "not found"}'']\<close>
  by (simp add: eval_defs main_store_def sample_json_def sample_Decode_def object_def)

subsection \<open>C7: a key without a record\<close>

text \<open>
  Claim C7, as amended. For a non-empty string of decimal digits under which the map
  has no entry, a GET of \<open>/users/\<close> followed by it answers 404, and the body is exactly
  the 23 bytes that \<open>notFound\<close> writes, with a space on each side of the colon.
\<close>

theorem get_not_found:
  assumes "ds \<noteq> []" and "list_all digit ds" and "map_of st ds = None"
  shows \<open>serve js st \<lparr>Method = ''GET'', Path = ''/users/'' @ ds, Body = b\<rparr> =
     Return \<lparr>resp = [SetHeader ''content-type'' ''application/json'', WriteHeader 404,
                      Write ''{"error" : "not found"}''],
             store_m = st, store_mu = [RLock, MapIndex ds, RUnlock]\<rparr>\<close>
  using serve_get_routed[OF assms(1,2), of js st b] assms(3)
  by (simp add: MethodGet_def notFound_def)

text \<open>
  C7 at work: GET \<open>/users/999\<close> on the store of the second copy of the program.
\<close>

theorem get_not_found_witness:
  \<open>''999'' \<noteq> [] \<and> list_all digit ''999'' \<and> map_of part_000_store ''999'' = None \<and>
   serve sample_json part_000_store \<lparr>Method = ''GET'', Path = ''/users/999'', Body = []\<rparr> =
     Return \<lparr>resp = [SetHeader ''content-type'' ''application/json'', WriteHeader 404,
                      Write ''{"error" : "not found"}''],
             store_m = part_000_store, store_mu = [RLock, MapIndex ''999'', RUnlock]\<rparr>\<close>
proof -
  have h: "''999'' \<noteq> []" "list_all digit ''999''" "map_of part_000_store ''999'' = None"
    by (simp_all add: digit_def part_000_store_def)
  show ?thesis
    using h get_not_found[OF h, of sample_json "[]"] by simp
qed

text \<open>
  C7 as stated fails on the bytes: the body written is not the 21 bytes of the claim,
  which have no spaces.
\<close>

theorem get_not_found_counterexample:
  \<open>map_of part_000_store ''999'' = None \<and>
   status_code (resp (final (serve sample_json part_000_store
      \<lparr>Method = ''GET'', Path = ''/users/999'', Body = []\<rparr>))) = Some 404 \<and>
   body_bytes (resp (final (serve sample_json part_000_store
      \<lparr>Method = ''GET'', Path = ''/users/999'', Body = []\<rparr>))) \<noteq> ''{"error":"not found"}''\<close>
  by (simp add: eval_defs part_000_store_def)

subsection \<open>C8: the body of the 500 response\<close>

text \<open>
  Claim C8 says that the error string of the 500 response is
  \<open>internal server error\<close>. \<open>internalServerError\<close> writes \<open>interval server error\<close>,
  which is none of the three strings of the claim.
\<close>

theorem internalServerError_body:
  \<open>internalServerError w = w @ [WriteHeader 500, Write (error_body ''interval server error'')] \<and>
   ''interval server error'' \<notin> set [''bad request'', ''not found'', ''internal server error'']\<close>
  by (simp add: internalServerError_def error_body_def)

subsection \<open>C9: the lock discipline\<close>

text \<open>
  Claim C9 says that \<open>List\<close> does not touch the map, its size included, before it
  holds the read lock. On every listing the first event is the read of \<open>len(h.store.m)\<close>,
  before \<open>RLock\<close>, so the run of \<open>List\<close> is not guarded.
\<close>

theorem list_len_before_rlock:
  "store_mu (final (serve js st \<lparr>Method = ''GET'', Path = ''/users'', Body = b\<rparr>)) =
     [MapLen, RLock, MapRange, RUnlock] \<and>
   \<not> guarded Unheld (store_mu (final (serve js st \<lparr>Method = ''GET'', Path = ''/users'', Body = b\<rparr>)))"
proof -
  have "route \<lparr>Method = ''GET'', Path = ''/users'', Body = b\<rparr> = RList"
    by (simp add: route_def MethodGet_def listUsersRe_def)
  then have "store_mu (final (serve js st \<lparr>Method = ''GET'', Path = ''/users'', Body = b\<rparr>)) =
     [MapLen, RLock, MapRange, RUnlock]"
    by (simp add: handler_defs split: option.splits)
  then show ?thesis by simp
qed

subsection \<open>C10: ids that Get cannot reach\<close>

text \<open>
  Claim C10. Let a request reach \<open>Create\<close> with a body that decodes to a user \<open>u\<close>
  whose id is empty or has a character that is not a decimal digit. The user is stored
  under its id. No request that is routed to \<open>Get\<close> looks that key up, and every
  request that is not a listing is answered exactly as it would have been had \<open>u\<close>
  not been stored. A listing does show it: \<open>u\<close> is among the users that \<open>List\<close>
  marshals.
\<close>

theorem nondigit_id_only_in_list:
  assumes "route r = RCreate" and "Decode js (Body r) = Some u"
    and "ID u = [] \<or> \<not> list_all digit (ID u)"
  shows "serve_all js st [r] = AList.update (ID u) u st \<and>
         map_of (serve_all js st [r]) (ID u) = Some u \<and>
         (\<forall>q. route q = RGet \<longrightarrow> drop 7 (Path q) \<noteq> ID u) \<and>
         (\<forall>q. route q \<noteq> RList \<longrightarrow>
            resp (final (serve js (serve_all js st [r]) q)) = resp (final (serve js st q))) \<and>
         u \<in> set (range_append (serve_all js st [r]) []) \<and>
         serve js (serve_all js st [r]) \<lparr>Method = ''GET'', Path = ''/users'', Body = b\<rparr> =
           Return \<lparr>resp = SetHeader ''content-type'' ''application/json'' #
                      (case Marshal js (JUsers (range_append (serve_all js st [r]) [])) of
                         None \<Rightarrow> internalServerError []
                       | Some jsonBytes \<Rightarrow> [WriteHeader 200, Write jsonBytes]),
                   store_m = serve_all js st [r],
                   store_mu = [MapLen, RLock, MapRange, RUnlock]\<rparr>"
proof -
  let ?st' = "AList.update (ID u) u st"
  have st': "serve_all js st [r] = ?st'"
    using assms(1,2) by (simp add: store_after_serve)
  have look: "map_of ?st' (ID u) = Some u"
    by (simp add: update_conv')
  have key: "\<forall>q. route q = RGet \<longrightarrow> drop 7 (Path q) \<noteq> ID u"
    using get_key_digits assms(3) by metis
  have same: "\<forall>q. route q \<noteq> RList \<longrightarrow>
      resp (final (serve js ?st' q)) = resp (final (serve js st q))"
  proof (intro allI impI)
    fix q assume nl: "route q \<noteq> RList"
    show "resp (final (serve js ?st' q)) = resp (final (serve js st q))"
    proof (cases "route q = RGet")
      case True
      with key have "map_of ?st' (drop 7 (Path q)) = map_of st (drop 7 (Path q))"
        by (simp add: update_conv')
      with serve_resp_not_list[OF nl, of js ?st' st] show ?thesis by simp
    next
      case False
      with serve_resp_not_list[OF nl, of js ?st' st] show ?thesis by simp
    qed
  qed
  have "(ID u, u) \<in> set ?st'"
    using look by (rule map_of_SomeD)
  then have mem: "u \<in> set (range_append ?st' [])"
    by (force simp: range_append_eq)
  have rl: "route \<lparr>Method = ''GET'', Path = ''/users'', Body = b\<rparr> = RList"
    by (simp add: route_def MethodGet_def listUsersRe_def)
  have list: "serve js ?st' \<lparr>Method = ''GET'', Path = ''/users'', Body = b\<rparr> =
           Return \<lparr>resp = SetHeader ''content-type'' ''application/json'' #
                      (case Marshal js (JUsers (range_append ?st' [])) of
                         None \<Rightarrow> internalServerError []
                       | Some jsonBytes \<Rightarrow> [WriteHeader 200, Write jsonBytes]),
                   store_m = ?st',
                   store_mu = [MapLen, RLock, MapRange, RUnlock]\<rparr>"
    using rl by (simp add: handler_defs split: option.splits)
  show ?thesis
    unfolding st' using look key same mem list by blast
qed

text \<open>
  C10 at work: the user with id \<open>abc\<close> is created on the store of main.go; GET
  \<open>/users/1\<close> is answered as before.
\<close>

theorem nondigit_id_only_in_list_witness:
  \<open>route \<lparr>Method = ''POST'', Path = ''/users'', Body = ''{"id":"abc","name":"X"}''\<rparr> = RCreate \<and>
   Decode sample_json ''{"id":"abc","name":"X"}'' = Some \<lparr>ID = ''abc'', Name = ''X''\<rparr> \<and>
   \<not> list_all digit ''abc'' \<and>
   map_of (serve_all sample_json main_store
      [\<lparr>Method = ''POST'', Path = ''/users'', Body = ''{"id":"abc","name":"X"}''\<rparr>]) ''abc'' =
     Some \<lparr>ID = ''abc'', Name = ''X''\<rparr> \<and>
   route \<lparr>Method = ''GET'', Path = ''/users/1'', Body = []\<rparr> = RGet \<and>
   resp (final (serve sample_json
      (serve_all sample_json main_store
        [\<lparr>Method = ''POST'', Path = ''/users'', Body = ''{"id":"abc","name":"X"}''\<rparr>])
      \<lparr>Method = ''GET'', Path = ''/users/1'', Body = []\<rparr>)) =
   resp (final (serve sample_json main_store \<lparr>Method = ''GET'', Path = ''/users/1'', Body = []\<rparr>)) \<and>
   \<lparr>ID = ''abc'', Name = ''X''\<rparr> \<in> set (range_append (serve_all sample_json main_store
      [\<lparr>Method = ''POST'', Path = ''/users'', Body = ''{"id":"abc","name":"X"}''\<rparr>]) [])\<close>
proof -
  let ?r = \<open>\<lparr>Method = ''POST'', Path = ''/users'', Body = ''{"id":"abc","name":"X"}''\<rparr>\<close>
  let ?u = "\<lparr>ID = ''abc'', Name = ''X''\<rparr>"
  let ?q = "\<lparr>Method = ''GET'', Path = ''/users/1'', Body = []\<rparr>"
  have h1: "route ?r = RCreate"
    by (simp add: route_def MethodGet_def MethodPost_def createUserRe_def)
  have h2: "Decode sample_json (Body ?r) = Some ?u"
    by (simp add: sample_json_def sample_Decode_def)
  have nd: "\<not> list_all digit ''abc''"
    by (simp add: digit_def)
  then have h3: "ID ?u = [] \<or> \<not> list_all digit (ID ?u)"
    by simp
  have q: "route ?q = RGet" "route ?q \<noteq> RList"
    by (simp_all add: route_def MethodGet_def listUsersRe_def getUserRe_def Plus_def digit_def)
  note t = nondigit_id_only_in_list[OF h1 h2 h3, of main_store "[]"]
  note stored = t[THEN conjunct2, THEN conjunct1]
  note same = t[THEN conjunct2, THEN conjunct2, THEN conjunct2, THEN conjunct1, rule_format, OF q(2)]
  note listed = t[THEN conjunct2, THEN conjunct2, THEN conjunct2, THEN conjunct2, THEN conjunct1]
  show ?thesis
    using h1 h2 q(1) stored same listed
    by (simp add: digit_def del: serve_all.simps)
qed

end
